theory Spec2Isabelle
  imports Main
begin

section \<open>Security group rule sets (aws-ec2, lib/security-group.ts)\<close>

subsection \<open>Rule objects\<close>

text \<open>
  A rule is a plain JavaScript object whose fields hold strings, numbers or nothing.
  Reading a field that the object does not have gives \<open>undefined\<close>, and \<open>===\<close> on
  strings, on (integer) numbers and on \<open>undefined\<close> is equality of the values. Port
  numbers are integers; NaN, for which \<open>===\<close> is not reflexive, is outside the model.
\<close>

datatype jsval = JUndefined | JString string | JNumber int

type_synonym json = "string \<rightharpoonup> jsval"

definition getProp :: "json \<Rightarrow> string \<Rightarrow> jsval" where
  "getProp obj k = (case obj k of None \<Rightarrow> JUndefined | Some v \<Rightarrow> v)"

text \<open>
  The two interfaces of \<open>security-group-rule\<close> that the security group consumes. A peer
  (\<open>ISecurityGroupRule\<close>) and a port range (\<open>IPortRange\<close>) are taken as the values
  their members return; \<open>conn_toString\<close> is what the template literal
  \<open>${connection}\<close> evaluates to.
\<close>

record peer =
  peer_canInlineRule :: bool
  uniqueId :: string
  toIngressRuleJSON :: json
  toEgressRuleJSON :: json

record portRange =
  conn_canInlineRule :: bool
  toRuleJSON :: json
  conn_toString :: string

subsection \<open>The sentinel rules and the rule predicates\<close>

definition MATCH_NO_TRAFFIC :: json where
  "MATCH_NO_TRAFFIC =
     [''cidrIp'' \<mapsto> JString ''255.255.255.255/32'',
      ''description'' \<mapsto> JString ''Disallow all traffic'',
      ''ipProtocol'' \<mapsto> JString ''icmp'',
      ''fromPort'' \<mapsto> JNumber 252,
      ''toPort'' \<mapsto> JNumber 86]"

definition ALLOW_ALL_RULE :: json where
  "ALLOW_ALL_RULE =
     [''cidrIp'' \<mapsto> JString ''0.0.0.0/0'',
      ''description'' \<mapsto> JString ''Allow all outbound traffic by default'',
      ''ipProtocol'' \<mapsto> JString ''-1'']"

definition ingressRulesEqual :: "json \<Rightarrow> json \<Rightarrow> bool" where
  "ingressRulesEqual a b \<longleftrightarrow>
     getProp a ''cidrIp'' = getProp b ''cidrIp''
   \<and> getProp a ''cidrIpv6'' = getProp b ''cidrIpv6''
   \<and> getProp a ''fromPort'' = getProp b ''fromPort''
   \<and> getProp a ''toPort'' = getProp b ''toPort''
   \<and> getProp a ''ipProtocol'' = getProp b ''ipProtocol''
   \<and> getProp a ''sourceSecurityGroupId'' = getProp b ''sourceSecurityGroupId''
   \<and> getProp a ''sourceSecurityGroupName'' = getProp b ''sourceSecurityGroupName''
   \<and> getProp a ''sourceSecurityGroupOwnerId'' = getProp b ''sourceSecurityGroupOwnerId''"

definition egressRulesEqual :: "json \<Rightarrow> json \<Rightarrow> bool" where
  "egressRulesEqual a b \<longleftrightarrow>
     getProp a ''cidrIp'' = getProp b ''cidrIp''
   \<and> getProp a ''cidrIpv6'' = getProp b ''cidrIpv6''
   \<and> getProp a ''fromPort'' = getProp b ''fromPort''
   \<and> getProp a ''toPort'' = getProp b ''toPort''
   \<and> getProp a ''ipProtocol'' = getProp b ''ipProtocol''
   \<and> getProp a ''destinationPrefixListId'' = getProp b ''destinationPrefixListId''
   \<and> getProp a ''destinationSecurityGroupId'' = getProp b ''destinationSecurityGroupId''"

definition isAllTrafficRule :: "json \<Rightarrow> bool" where
  "isAllTrafficRule rule \<longleftrightarrow>
     getProp rule ''cidrIp'' = JString ''0.0.0.0/0'' \<and> getProp rule ''ipProtocol'' = JString ''-1''"

subsection \<open>Array and string primitives\<close>

text \<open>
  \<open>Array.prototype.findIndex\<close> gives the index of the first element that satisfies the
  predicate, or \<open>-1\<close>; \<open>splice(i, 1)\<close> deletes the element at index \<open>i\<close>;
  \<open>String.prototype.replace\<close> with a string pattern replaces the first occurrence only.
\<close>

fun findIndex :: "('a \<Rightarrow> bool) \<Rightarrow> 'a list \<Rightarrow> int" where
  "findIndex p [] = - 1"
| "findIndex p (x # xs) =
     (if p x then 0
      else (let i = findIndex p xs in if i > - 1 then i + 1 else - 1))"

definition splice1 :: "int \<Rightarrow> 'a list \<Rightarrow> 'a list" where
  "splice1 i xs = take (nat i) xs @ drop (nat i + 1) xs"

fun str_replace :: "char \<Rightarrow> char \<Rightarrow> string \<Rightarrow> string" where
  "str_replace a b [] = []"
| "str_replace a b (c # cs) = (if c = a then b # cs else c # str_replace a b cs)"

subsection \<open>The security group and its construct children\<close>

datatype child =
    CfnSecurityGroup
  | CfnSecurityGroupIngress json
  | CfnSecurityGroupEgress json

record securityGroup =
  allowAllOutbound :: bool
  securityGroupId :: string
  directIngressRules :: "json list"
  directEgressRules :: "json list"
  children :: "string \<rightharpoonup> child"

datatype error = ConfigurationError

type_synonym outcome = "(error + unit) \<times> securityGroup"

text \<open>
  Modelled from the spec: the construct tree (class \<open>Construct\<close> with \<open>tryFindChild\<close>,
  and the constructors of the generated resources \<open>CfnSecurityGroupIngress\<close> and
  \<open>CfnSecurityGroupEgress\<close>) belongs to the framework and is not part of the sources at
  hand. The spec takes it as a fixed collaborator: rules that cannot be inlined become
  separate standalone rule resources, and every operation other than the all-traffic
  egress check is total. Children are therefore a store keyed by construct id, and
  \<open>tryFindChild\<close> looks an id up in it.
\<close>

definition tryFindChild :: "securityGroup \<Rightarrow> string \<Rightarrow> child option" where
  "tryFindChild this ident = children this ident"

text \<open>
  Modelled from the spec: the constructor of a standalone rule resource, which is not
  part of the sources at hand either, enters the resource under its id and does not
  fail. The callers have looked the id up before, so no child is ever replaced.
\<close>

definition newChild :: "securityGroup \<Rightarrow> string \<Rightarrow> child \<Rightarrow> securityGroup" where
  "newChild this ident c = this\<lparr>children := (children this)(ident \<mapsto> c)\<rparr>"

subsection \<open>SecurityGroupBase: standalone rule resources\<close>

definition SecurityGroupBase_addIngressRule ::
  "securityGroup \<Rightarrow> peer \<Rightarrow> portRange \<Rightarrow> string option \<Rightarrow> securityGroup" where
  "SecurityGroupBase_addIngressRule this peer connection description =
     (let ident = ''from '' @ uniqueId peer @ '':'' @ conn_toString connection;
          description = (case description of None \<Rightarrow> ident | Some d \<Rightarrow> d);
          ident = str_replace (CHR ''/'') (CHR ''_'') ident
      in if tryFindChild this ident = None
         then newChild this ident
                (CfnSecurityGroupIngress
                  (([''groupId'' \<mapsto> JString (securityGroupId this)]
                      ++ toIngressRuleJSON peer ++ toRuleJSON connection)
                    (''description'' \<mapsto> JString description)))
         else this)"

definition SecurityGroupBase_addEgressRule ::
  "securityGroup \<Rightarrow> peer \<Rightarrow> portRange \<Rightarrow> string option \<Rightarrow> securityGroup" where
  "SecurityGroupBase_addEgressRule this peer connection description =
     (let ident = ''to '' @ uniqueId peer @ '':'' @ conn_toString connection;
          description = (case description of None \<Rightarrow> ident | Some d \<Rightarrow> d);
          ident = str_replace (CHR ''/'') (CHR ''_'') ident
      in if tryFindChild this ident = None
         then newChild this ident
                (CfnSecurityGroupEgress
                  (([''groupId'' \<mapsto> JString (securityGroupId this)]
                      ++ toEgressRuleJSON peer ++ toRuleJSON connection)
                    (''description'' \<mapsto> JString description)))
         else this)"

subsection \<open>SecurityGroup: inline rules\<close>

definition hasIngressRule :: "securityGroup \<Rightarrow> json \<Rightarrow> bool" where
  "hasIngressRule this rule \<longleftrightarrow>
     findIndex (\<lambda>r. ingressRulesEqual r rule) (directIngressRules this) > - 1"

definition addDirectIngressRule :: "securityGroup \<Rightarrow> json \<Rightarrow> securityGroup" where
  "addDirectIngressRule this rule =
     (if \<not> hasIngressRule this rule
      then this\<lparr>directIngressRules := directIngressRules this @ [rule]\<rparr>
      else this)"

definition hasEgressRule :: "securityGroup \<Rightarrow> json \<Rightarrow> bool" where
  "hasEgressRule this rule \<longleftrightarrow>
     findIndex (\<lambda>r. egressRulesEqual r rule) (directEgressRules this) > - 1"

definition addDirectEgressRule :: "securityGroup \<Rightarrow> json \<Rightarrow> securityGroup" where
  "addDirectEgressRule this rule =
     (if \<not> hasEgressRule this rule
      then this\<lparr>directEgressRules := directEgressRules this @ [rule]\<rparr>
      else this)"

definition addDefaultEgressRule :: "securityGroup \<Rightarrow> securityGroup" where
  "addDefaultEgressRule this =
     (if allowAllOutbound this
      then this\<lparr>directEgressRules := directEgressRules this @ [ALLOW_ALL_RULE]\<rparr>
      else this\<lparr>directEgressRules := directEgressRules this @ [MATCH_NO_TRAFFIC]\<rparr>)"

definition removeNoTrafficRule :: "securityGroup \<Rightarrow> securityGroup" where
  "removeNoTrafficRule this =
     (let i = findIndex (\<lambda>r. egressRulesEqual r MATCH_NO_TRAFFIC) (directEgressRules this)
      in if i > - 1
         then this\<lparr>directEgressRules := splice1 i (directEgressRules this)\<rparr>
         else this)"

text \<open>
  The rule objects that \<open>addIngressRule\<close> and \<open>addEgressRule\<close> build on the inline
  path: the spread of the peer's and the port range's fields (later fields win), and
  the description, which defaults to \<open>from <uniqueId>:<connection>\<close> in both methods.
\<close>

definition ingressRule :: "peer \<Rightarrow> portRange \<Rightarrow> string option \<Rightarrow> json" where
  "ingressRule peer connection description =
     (let description =
        (case description of
           None \<Rightarrow> ''from '' @ uniqueId peer @ '':'' @ conn_toString connection
         | Some d \<Rightarrow> d)
      in (toIngressRuleJSON peer ++ toRuleJSON connection)
           (''description'' \<mapsto> JString description))"

definition egressRule :: "peer \<Rightarrow> portRange \<Rightarrow> string option \<Rightarrow> json" where
  "egressRule peer connection description =
     (let description =
        (case description of
           None \<Rightarrow> ''from '' @ uniqueId peer @ '':'' @ conn_toString connection
         | Some d \<Rightarrow> d)
      in (toEgressRuleJSON peer ++ toRuleJSON connection)
           (''description'' \<mapsto> JString description))"

definition addIngressRule ::
  "securityGroup \<Rightarrow> peer \<Rightarrow> portRange \<Rightarrow> string option \<Rightarrow> outcome" where
  "addIngressRule this peer connection description =
     (if \<not> peer_canInlineRule peer \<or> \<not> conn_canInlineRule connection
      then (Inr (), SecurityGroupBase_addIngressRule this peer connection description)
      else (Inr (), addDirectIngressRule this (ingressRule peer connection description)))"

text \<open>
  A \<open>throw\<close> does not undo what the method has done before it: the outcome carries the
  state in which the exception leaves the group.
\<close>

definition addEgressRule ::
  "securityGroup \<Rightarrow> peer \<Rightarrow> portRange \<Rightarrow> string option \<Rightarrow> outcome" where
  "addEgressRule this peer connection description =
     (if allowAllOutbound this then (Inr (), this)
      else
        (let this = removeNoTrafficRule this in
         if \<not> peer_canInlineRule peer \<or> \<not> conn_canInlineRule connection
         then (Inr (), SecurityGroupBase_addEgressRule this peer connection description)
         else
           (let rule = egressRule peer connection description in
            if isAllTrafficRule rule then (Inl ConfigurationError, this)
            else (Inr (), addDirectEgressRule this rule))))"

text \<open>
  The constructor, as far as the rule sets go: \<open>props.allowAllOutbound !== false\<close>, the
  \<open>Resource\<close> child, the two empty rule arrays, then \<open>addDefaultEgressRule\<close>. The
  identifier of the group comes from the generated resource and is a parameter.
\<close>

definition SecurityGroup_new :: "bool option \<Rightarrow> string \<Rightarrow> securityGroup" where
  "SecurityGroup_new props_allowAllOutbound gid =
     addDefaultEgressRule
       \<lparr> allowAllOutbound = (props_allowAllOutbound \<noteq> Some False),
         securityGroupId = gid,
         directIngressRules = [],
         directEgressRules = [],
         children = [''Resource'' \<mapsto> CfnSecurityGroup] \<rparr>"

subsection \<open>Clients: sequences of calls\<close>

text \<open>
  A client holds a group and calls the two methods on it in some order; a call that
  raises leaves the group as the exception found it, and a client that catches the
  error goes on with that group.
\<close>

datatype call =
    AddIngressRule peer portRange "string option"
  | AddEgressRule peer portRange "string option"

fun invoke :: "securityGroup \<Rightarrow> call \<Rightarrow> outcome" where
  "invoke this (AddIngressRule p c d) = addIngressRule this p c d"
| "invoke this (AddEgressRule p c d) = addEgressRule this p c d"

fun run :: "securityGroup \<Rightarrow> call list \<Rightarrow> securityGroup" where
  "run this [] = this"
| "run this (c # cs) = run (snd (invoke this c)) cs"

fun isEgressCall :: "call \<Rightarrow> bool" where
  "isEgressCall (AddEgressRule p c d) = True"
| "isEgressCall (AddIngressRule p c d) = False"

text \<open>No call of the sequence raised.\<close>

fun allReturn :: "securityGroup \<Rightarrow> call list \<Rightarrow> bool" where
  "allReturn this [] = True"
| "allReturn this (c # cs) =
     (fst (invoke this c) = Inr () \<and> allReturn (snd (invoke this c)) cs)"

text \<open>No \<open>addEgressRule\<close> call of the sequence returned normally.\<close>

fun noEgressReturn :: "securityGroup \<Rightarrow> call list \<Rightarrow> bool" where
  "noEgressReturn this [] = True"
| "noEgressReturn this (c # cs) =
     ((isEgressCall c \<longrightarrow> fst (invoke this c) = Inl ConfigurationError)
      \<and> noEgressReturn (snd (invoke this c)) cs)"

subsection \<open>Imported security groups and topics\<close>

record SecurityGroupImportProps =
  props_securityGroupId :: string

record ImportedSecurityGroup =
  imported_name :: string
  imported_securityGroupId :: string
  imported_props :: SecurityGroupImportProps

definition SecurityGroup_import ::
  "'parent \<Rightarrow> string \<Rightarrow> SecurityGroupImportProps \<Rightarrow> ImportedSecurityGroup" where
  "SecurityGroup_import parent ident props =
     \<lparr> imported_name = ident,
       imported_securityGroupId = props_securityGroupId props,
       imported_props = props \<rparr>"

definition ImportedSecurityGroup_export :: "ImportedSecurityGroup \<Rightarrow> SecurityGroupImportProps" where
  "ImportedSecurityGroup_export this = imported_props this"

record TopicImportProps =
  props_topicArn :: string
  props_topicName :: string

record ImportedTopic =
  topic_name :: string
  topicArn :: string
  topicName :: string
  autoCreatePolicy :: bool
  topic_props :: TopicImportProps

definition Topic_import :: "'parent \<Rightarrow> string \<Rightarrow> TopicImportProps \<Rightarrow> ImportedTopic" where
  "Topic_import parent ident props =
     \<lparr> topic_name = ident,
       topicArn = props_topicArn props,
       topicName = props_topicName props,
       autoCreatePolicy = False,
       topic_props = props \<rparr>"

definition ImportedTopic_export :: "ImportedTopic \<Rightarrow> TopicImportProps" where
  "ImportedTopic_export this = topic_props this"

subsection \<open>Concrete peers and port ranges\<close>

text \<open>
  Inputs for the evaluations below: the IPv4 wildcard CIDR, a security group used as a
  peer (\<open>SecurityGroupBase\<close> has \<open>canInlineRule = false\<close> and projects itself to
  its identifier), a peer of the same kind whose \<open>uniqueId\<close> is a path with two
  separators, the all-protocols port range and TCP ports.
\<close>

definition anyIPv4 :: peer where
  "anyIPv4 =
     \<lparr> peer_canInlineRule = True,
       uniqueId = ''0.0.0.0/0'',
       toIngressRuleJSON = [''cidrIp'' \<mapsto> JString ''0.0.0.0/0''],
       toEgressRuleJSON = [''cidrIp'' \<mapsto> JString ''0.0.0.0/0''] \<rparr>"

definition groupPeer :: peer where
  "groupPeer =
     \<lparr> peer_canInlineRule = False,
       uniqueId = ''OtherGroup'',
       toIngressRuleJSON = [''sourceSecurityGroupId'' \<mapsto> JString ''sg-12345''],
       toEgressRuleJSON = [''destinationSecurityGroupId'' \<mapsto> JString ''sg-12345''] \<rparr>"


definition allConnections :: portRange where
  "allConnections =
     \<lparr> conn_canInlineRule = True,
       toRuleJSON = [''ipProtocol'' \<mapsto> JString ''-1'',
                     ''fromPort'' \<mapsto> JNumber (- 1),
                     ''toPort'' \<mapsto> JNumber (- 1)],
       conn_toString = ''ALL TRAFFIC'' \<rparr>"

definition tcpPort :: "int \<Rightarrow> string \<Rightarrow> portRange" where
  "tcpPort n shown =
     \<lparr> conn_canInlineRule = True,
       toRuleJSON = [''ipProtocol'' \<mapsto> JString ''tcp'',
                     ''fromPort'' \<mapsto> JNumber n,
                     ''toPort'' \<mapsto> JNumber n],
       conn_toString = shown \<rparr>"

section \<open>Auxiliary facts\<close>

subsection \<open>Searching and the rule equalities\<close>

lemma findIndex_ge: "findIndex p xs \<ge> - 1"
  by (induction xs) (auto simp: Let_def)

lemma findIndex_found_iff: "(findIndex p xs > - 1) = (\<exists>x\<in>set xs. p x)"
  using findIndex_ge [of p]
  by (induction xs) (auto simp: Let_def)

lemma egressRulesEqual_refl: "egressRulesEqual r r"
  by (simp add: egressRulesEqual_def)





lemma allTraffic_any: "isAllTrafficRule (egressRule anyIPv4 allConnections d)"
  by (simp add: isAllTrafficRule_def egressRule_def anyIPv4_def allConnections_def
      getProp_def map_add_def)

lemma not_allTraffic_tcp: "\<not> isAllTrafficRule (egressRule p (tcpPort n shown) d)"
  by (simp add: isAllTrafficRule_def egressRule_def tcpPort_def getProp_def map_add_def)

subsection \<open>A new group\<close>

lemma new_deny:
  "SecurityGroup_new (Some False) gid =
     \<lparr> allowAllOutbound = False, securityGroupId = gid, directIngressRules = [],
       directEgressRules = [MATCH_NO_TRAFFIC],
       children = [''Resource'' \<mapsto> CfnSecurityGroup] \<rparr>"
  by (simp add: SecurityGroup_new_def addDefaultEgressRule_def)

lemma new_allow:
  "a \<noteq> Some False \<Longrightarrow> SecurityGroup_new a gid =
     \<lparr> allowAllOutbound = True, securityGroupId = gid, directIngressRules = [],
       directEgressRules = [ALLOW_ALL_RULE],
       children = [''Resource'' \<mapsto> CfnSecurityGroup] \<rparr>"
  by (simp add: SecurityGroup_new_def addDefaultEgressRule_def)

lemma new_children: "children (SecurityGroup_new a gid) = [''Resource'' \<mapsto> CfnSecurityGroup]"
  by (simp add: SecurityGroup_new_def addDefaultEgressRule_def)


lemma new_egress_nonempty: "directEgressRules (SecurityGroup_new a gid) \<noteq> []"
  by (simp add: SecurityGroup_new_def addDefaultEgressRule_def)

subsection \<open>What each operation leaves alone\<close>

lemma removeNoTrafficRule_frame:
  "allowAllOutbound (removeNoTrafficRule this) = allowAllOutbound this"
  "children (removeNoTrafficRule this) = children this"
  "directIngressRules (removeNoTrafficRule this) = directIngressRules this"
  by (simp_all add: removeNoTrafficRule_def Let_def)

lemma addDirectIngressRule_frame:
  "children (addDirectIngressRule this rule) = children this"
  "directEgressRules (addDirectIngressRule this rule) = directEgressRules this"
  "allowAllOutbound (addDirectIngressRule this rule) = allowAllOutbound this"
  by (simp_all add: addDirectIngressRule_def)

lemma addDirectEgressRule_frame:
  "children (addDirectEgressRule this rule) = children this"
  "allowAllOutbound (addDirectEgressRule this rule) = allowAllOutbound this"
  "directIngressRules (addDirectEgressRule this rule) = directIngressRules this"
  by (simp_all add: addDirectEgressRule_def)

lemma base_addIngressRule_frame:
  "directEgressRules (SecurityGroupBase_addIngressRule this p c d) = directEgressRules this"
  "directIngressRules (SecurityGroupBase_addIngressRule this p c d) = directIngressRules this"
  "allowAllOutbound (SecurityGroupBase_addIngressRule this p c d) = allowAllOutbound this"
  by (simp_all add: SecurityGroupBase_addIngressRule_def newChild_def Let_def)

lemma base_addEgressRule_frame:
  "directEgressRules (SecurityGroupBase_addEgressRule this p c d) = directEgressRules this"
  "directIngressRules (SecurityGroupBase_addEgressRule this p c d) = directIngressRules this"
  "allowAllOutbound (SecurityGroupBase_addEgressRule this p c d) = allowAllOutbound this"
  by (simp_all add: SecurityGroupBase_addEgressRule_def newChild_def Let_def)

lemma addIngressRule_egress_frame:
  "directEgressRules (snd (addIngressRule this p c d)) = directEgressRules this"
  "allowAllOutbound (snd (addIngressRule this p c d)) = allowAllOutbound this"
  by (simp_all add: addIngressRule_def base_addIngressRule_frame addDirectIngressRule_frame)

lemma addEgressRule_ingress_frame:
  "directIngressRules (snd (addEgressRule this p c d)) = directIngressRules this"
  by (simp add: addEgressRule_def Let_def base_addEgressRule_frame addDirectEgressRule_frame
      removeNoTrafficRule_frame)

lemma securityGroupId_frame:
  "securityGroupId (removeNoTrafficRule this) = securityGroupId this"
  "securityGroupId (addDirectIngressRule this rule) = securityGroupId this"
  "securityGroupId (addDirectEgressRule this rule) = securityGroupId this"
  "securityGroupId (SecurityGroupBase_addIngressRule this p c d) = securityGroupId this"
  "securityGroupId (SecurityGroupBase_addEgressRule this p c d) = securityGroupId this"
  by (simp_all add: removeNoTrafficRule_def addDirectIngressRule_def addDirectEgressRule_def
      SecurityGroupBase_addIngressRule_def SecurityGroupBase_addEgressRule_def newChild_def Let_def)

lemma invoke_securityGroupId: "securityGroupId (snd (invoke this x)) = securityGroupId this"
  by (cases x) (simp_all add: addIngressRule_def addEgressRule_def Let_def securityGroupId_frame)

lemma run_securityGroupId: "securityGroupId (run this cs) = securityGroupId this"
  by (induction cs arbitrary: this) (simp_all add: invoke_securityGroupId)

subsection \<open>The branches of addEgressRule\<close>

lemma addEgressRule_allow:
  "allowAllOutbound this \<Longrightarrow> addEgressRule this p c d = (Inr (), this)"
  by (simp add: addEgressRule_def)

lemma addEgressRule_fallback:
  "\<not> allowAllOutbound this \<Longrightarrow> \<not> peer_canInlineRule p \<or> \<not> conn_canInlineRule c \<Longrightarrow>
   addEgressRule this p c d
     = (Inr (), SecurityGroupBase_addEgressRule (removeNoTrafficRule this) p c d)"
  by (auto simp: addEgressRule_def Let_def)

lemma addEgressRule_raise:
  "\<not> allowAllOutbound this \<Longrightarrow> peer_canInlineRule p \<Longrightarrow> conn_canInlineRule c \<Longrightarrow>
   isAllTrafficRule (egressRule p c d) \<Longrightarrow>
   addEgressRule this p c d = (Inl ConfigurationError, removeNoTrafficRule this)"
  by (simp add: addEgressRule_def Let_def)

lemma addEgressRule_inline:
  "\<not> allowAllOutbound this \<Longrightarrow> peer_canInlineRule p \<Longrightarrow> conn_canInlineRule c \<Longrightarrow>
   \<not> isAllTrafficRule (egressRule p c d) \<Longrightarrow>
   addEgressRule this p c d
     = (Inr (), addDirectEgressRule (removeNoTrafficRule this) (egressRule p c d))"
  by (simp add: addEgressRule_def Let_def)

lemma addEgressRule_raise_state:
  "fst (addEgressRule this p c d) = Inl ConfigurationError \<Longrightarrow>
   snd (addEgressRule this p c d) = removeNoTrafficRule this \<and> \<not> allowAllOutbound this"
  by (auto simp: addEgressRule_def Let_def split: if_splits)

subsection \<open>Removing the sentinel\<close>

lemma removeNoTrafficRule_sentinel:
  "directEgressRules this = [MATCH_NO_TRAFFIC] \<Longrightarrow>
   removeNoTrafficRule this = this\<lparr>directEgressRules := []\<rparr>"
  by (simp add: removeNoTrafficRule_def egressRulesEqual_refl splice1_def)

lemma removeNoTrafficRule_empty:
  "directEgressRules this = [] \<Longrightarrow> removeNoTrafficRule this = this"
  by (simp add: removeNoTrafficRule_def)

lemma removeNoTrafficRule_fresh:
  "directEgressRules this = [MATCH_NO_TRAFFIC] \<or> directEgressRules this = [] \<Longrightarrow>
   directEgressRules (removeNoTrafficRule this) = []"
  by (auto simp: removeNoTrafficRule_sentinel removeNoTrafficRule_empty)

lemma addDirectEgressRule_nonempty:
  "directEgressRules (addDirectEgressRule this rule) \<noteq> []"
  by (auto simp: addDirectEgressRule_def hasEgressRule_def findIndex_found_iff)

lemma addEgressRule_returns_unless_all_traffic:
  "\<not> isAllTrafficRule (egressRule p c d) \<Longrightarrow> fst (addEgressRule this p c d) = Inr ()"
  by (auto simp: addEgressRule_def Let_def)

lemma fallback_on_new_deny:
  "\<not> peer_canInlineRule p \<or> \<not> conn_canInlineRule c \<Longrightarrow>
   fst (addEgressRule (SecurityGroup_new (Some False) gid) p c d) = Inr ()
   \<and> directEgressRules (snd (addEgressRule (SecurityGroup_new (Some False) gid) p c d)) = []"
proof -
  assume n: "\<not> peer_canInlineRule p \<or> \<not> conn_canInlineRule c"
  have d: "\<not> allowAllOutbound (SecurityGroup_new (Some False) gid)"
    by (simp add: new_deny)
  have e: "directEgressRules (removeNoTrafficRule (SecurityGroup_new (Some False) gid)) = []"
    by (simp add: removeNoTrafficRule_fresh new_deny)
  show ?thesis
    by (simp add: addEgressRule_fallback [OF d n] base_addEgressRule_frame e)
qed

text \<open>
  While every \<open>addEgressRule\<close> call has raised, a deny-by-default group holds the
  sentinel alone or nothing.
\<close>

lemma sentinel_or_empty_run:
  assumes "\<not> allowAllOutbound this"
    and "directEgressRules this = [MATCH_NO_TRAFFIC] \<or> directEgressRules this = []"
    and "noEgressReturn this cs"
  shows "\<not> allowAllOutbound (run this cs)
     \<and> (directEgressRules (run this cs) = [MATCH_NO_TRAFFIC] \<or> directEgressRules (run this cs) = [])"
  using assms
proof (induction cs arbitrary: this)
  case Nil
  then show ?case by simp
next
  case (Cons x cs)
  have step: "\<not> allowAllOutbound (snd (invoke this x))
     \<and> (directEgressRules (snd (invoke this x)) = [MATCH_NO_TRAFFIC]
        \<or> directEgressRules (snd (invoke this x)) = [])"
  proof (cases x)
    case (AddIngressRule p c d)
    then show ?thesis using Cons.prems(1,2)
      by (simp add: addIngressRule_egress_frame)
  next
    case (AddEgressRule p c d)
    with Cons.prems(3) have "fst (addEgressRule this p c d) = Inl ConfigurationError"
      by simp
    then have "snd (addEgressRule this p c d) = removeNoTrafficRule this"
      by (simp add: addEgressRule_raise_state)
    then show ?thesis using Cons.prems(1,2) AddEgressRule
      by (simp add: removeNoTrafficRule_fresh removeNoTrafficRule_frame)
  qed
  moreover have "noEgressReturn (snd (invoke this x)) cs"
    using Cons.prems(3) by simp
  ultimately have "\<not> allowAllOutbound (run (snd (invoke this x)) cs)
     \<and> (directEgressRules (run (snd (invoke this x)) cs) = [MATCH_NO_TRAFFIC]
        \<or> directEgressRules (run (snd (invoke this x)) cs) = [])"
    by (intro Cons.IH) simp_all
  then show ?case by simp
qed

lemma addEgressRule_after_sentinel_or_empty:
  assumes "\<not> allowAllOutbound this"
    and "directEgressRules this = [MATCH_NO_TRAFFIC] \<or> directEgressRules this = []"
    and "fst (addEgressRule this p c d) = Inr ()"
  shows "directEgressRules (snd (addEgressRule this p c d)) =
           (if peer_canInlineRule p \<and> conn_canInlineRule c then [egressRule p c d] else [])"
proof -
  have e: "directEgressRules (removeNoTrafficRule this) = []"
    using assms(2) by (rule removeNoTrafficRule_fresh)
  show ?thesis
  proof (cases "peer_canInlineRule p \<and> conn_canInlineRule c")
    case True
    with assms(1,3) have "\<not> isAllTrafficRule (egressRule p c d)"
      by (auto simp: addEgressRule_def Let_def)
    with True assms(1) e show ?thesis
      by (simp add: addEgressRule_inline addDirectEgressRule_def hasEgressRule_def)
  next
    case False
    with assms(1) e show ?thesis
      by (simp add: addEgressRule_fallback base_addEgressRule_frame)
  qed
qed

subsection \<open>Allow-all-outbound groups\<close>

lemma run_allow_egress:
  "allowAllOutbound this \<Longrightarrow> \<forall>c\<in>set cs. isEgressCall c \<Longrightarrow> run this cs = this"
proof (induction cs arbitrary: this)
  case Nil
  then show ?case by simp
next
  case (Cons c cs)
  then show ?case by (cases c) (simp_all add: addEgressRule_allow)
qed

subsection \<open>Standalone rule resources\<close>

text \<open>
  The fallback methods enter at most one child, under an id that begins with
  \<open>to\<close> and a blank for an egress resource and with \<open>from\<close> for an ingress one.
\<close>

lemma base_addEgressRule_children:
  "\<exists>i r. take 3 i = ''to '' \<and>
     children (SecurityGroupBase_addEgressRule this p c d)
       = (if children this i = None then (children this)(i \<mapsto> CfnSecurityGroupEgress r)
          else children this)"
proof -
  let ?i = "str_replace (CHR ''/'') (CHR ''_'') (''to '' @ uniqueId p @ '':'' @ conn_toString c)"
  let ?r = "([''groupId'' \<mapsto> JString (securityGroupId this)] ++ toEgressRuleJSON p ++ toRuleJSON c)
      (''description'' \<mapsto> JString (case d of
          None \<Rightarrow> ''to '' @ uniqueId p @ '':'' @ conn_toString c | Some d \<Rightarrow> d))"
  have "take 3 ?i = ''to ''" by simp
  moreover have "children (SecurityGroupBase_addEgressRule this p c d)
       = (if children this ?i = None then (children this)(?i \<mapsto> CfnSecurityGroupEgress ?r)
          else children this)"
    by (cases d)
      (simp_all add: SecurityGroupBase_addEgressRule_def Let_def tryFindChild_def newChild_def)
  ultimately show ?thesis by blast
qed

lemma base_addIngressRule_children:
  "\<exists>i r. take 3 i \<noteq> ''to '' \<and>
     children (SecurityGroupBase_addIngressRule this p c d)
       = (if children this i = None then (children this)(i \<mapsto> CfnSecurityGroupIngress r)
          else children this)"
proof -
  let ?i = "str_replace (CHR ''/'') (CHR ''_'') (''from '' @ uniqueId p @ '':'' @ conn_toString c)"
  let ?r = "([''groupId'' \<mapsto> JString (securityGroupId this)] ++ toIngressRuleJSON p ++ toRuleJSON c)
      (''description'' \<mapsto> JString (case d of
          None \<Rightarrow> ''from '' @ uniqueId p @ '':'' @ conn_toString c | Some d \<Rightarrow> d))"
  have "take 3 ?i \<noteq> ''to ''" by simp
  moreover have "children (SecurityGroupBase_addIngressRule this p c d)
       = (if children this ?i = None then (children this)(?i \<mapsto> CfnSecurityGroupIngress ?r)
          else children this)"
    by (cases d)
      (simp_all add: SecurityGroupBase_addIngressRule_def Let_def tryFindChild_def newChild_def)
  ultimately show ?thesis by blast
qed

text \<open>
  While every \<open>addEgressRule\<close> call has raised, no child sits under an id that
  begins with \<open>to\<close> and a blank, so the first fallback call creates its resource.
\<close>

lemma no_egress_child_step:
  assumes free: "\<forall>i. take 3 i = ''to '' \<longrightarrow> children this i = None"
    and raised: "isEgressCall x \<longrightarrow> fst (invoke this x) = Inl ConfigurationError"
  shows "\<forall>i. take 3 i = ''to '' \<longrightarrow> children (snd (invoke this x)) i = None"
proof (cases x)
  case (AddIngressRule p c d)
  show ?thesis
  proof (cases "peer_canInlineRule p \<and> conn_canInlineRule c")
    case True
    then have "snd (invoke this x) = addDirectIngressRule this (ingressRule p c d)"
      using AddIngressRule by (simp add: addIngressRule_def)
    then show ?thesis using free by (simp add: addDirectIngressRule_frame)
  next
    case False
    then have s': "snd (invoke this x) = SecurityGroupBase_addIngressRule this p c d"
      using AddIngressRule by (auto simp: addIngressRule_def)
    obtain i r where i: "take 3 i \<noteq> ''to ''"
      and ch: "children (SecurityGroupBase_addIngressRule this p c d)
         = (if children this i = None then (children this)(i \<mapsto> CfnSecurityGroupIngress r)
            else children this)"
      using base_addIngressRule_children by blast
    show ?thesis using free i by (auto simp: s' ch)
  qed
next
  case (AddEgressRule p c d)
  with raised have "fst (addEgressRule this p c d) = Inl ConfigurationError" by simp
  then have "snd (invoke this x) = removeNoTrafficRule this"
    using AddEgressRule by (simp add: addEgressRule_raise_state)
  then show ?thesis using free by (simp add: removeNoTrafficRule_frame)
qed

lemma no_egress_child_run:
  assumes "\<forall>i. take 3 i = ''to '' \<longrightarrow> children this i = None"
    and "noEgressReturn this cs"
  shows "\<forall>i. take 3 i = ''to '' \<longrightarrow> children (run this cs) i = None"
  using assms
proof (induction cs arbitrary: this)
  case Nil
  then show ?case by simp
next
  case (Cons x cs)
  from Cons.prems(2) have raised: "isEgressCall x \<longrightarrow> fst (invoke this x) = Inl ConfigurationError"
    and rest: "noEgressReturn (snd (invoke this x)) cs"
    by simp_all
  have "\<forall>i. take 3 i = ''to '' \<longrightarrow> children (run (snd (invoke this x)) cs) i = None"
    using no_egress_child_step [OF Cons.prems(1) raised] rest by (rule Cons.IH)
  then show ?case by simp
qed

lemma base_addEgressRule_new_child:
  assumes "\<forall>i. take 3 i = ''to '' \<longrightarrow> children this i = None"
  shows "tryFindChild (SecurityGroupBase_addEgressRule this p c d)
      (str_replace (CHR ''/'') (CHR ''_'') (''to '' @ uniqueId p @ '':'' @ conn_toString c))
    = Some (CfnSecurityGroupEgress
        (([''groupId'' \<mapsto> JString (securityGroupId this)] ++ toEgressRuleJSON p ++ toRuleJSON c)
          (''description'' \<mapsto> JString (case d of
              None \<Rightarrow> ''to '' @ uniqueId p @ '':'' @ conn_toString c | Some d' \<Rightarrow> d'))))"
proof -
  let ?i = "str_replace (CHR ''/'') (CHR ''_'') (''to '' @ uniqueId p @ '':'' @ conn_toString c)"
  have "take 3 ?i = ''to ''" by simp
  with assms have "children this ?i = None" by blast
  then show ?thesis
    by (cases d)
      (simp_all add: SecurityGroupBase_addEgressRule_def Let_def tryFindChild_def newChild_def)
qed

text \<open>
  One returning call keeps two facts about a group: a child whose id begins with
  \<open>to\<close> and a blank is an egress resource, and there is an inline egress rule or a
  standalone one.
\<close>

lemma egress_present_step:
  assumes P: "\<forall>i. take 3 i = ''to '' \<longrightarrow> children this i \<noteq> None \<longrightarrow>
                (\<exists>r. children this i = Some (CfnSecurityGroupEgress r))"
    and Q: "directEgressRules this \<noteq> []
            \<or> (\<exists>i r. children this i = Some (CfnSecurityGroupEgress r))"
    and ret: "fst (invoke this x) = Inr ()"
  shows "(\<forall>i. take 3 i = ''to '' \<longrightarrow> children (snd (invoke this x)) i \<noteq> None \<longrightarrow>
                (\<exists>r. children (snd (invoke this x)) i = Some (CfnSecurityGroupEgress r)))
     \<and> (directEgressRules (snd (invoke this x)) \<noteq> []
        \<or> (\<exists>i r. children (snd (invoke this x)) i = Some (CfnSecurityGroupEgress r)))"
proof (cases x)
  case (AddIngressRule p c d)
  show ?thesis
  proof (cases "peer_canInlineRule p \<and> conn_canInlineRule c")
    case True
    then have "snd (invoke this x) = addDirectIngressRule this (ingressRule p c d)"
      using AddIngressRule by (simp add: addIngressRule_def)
    then show ?thesis using P Q by (simp add: addDirectIngressRule_frame)
  next
    case False
    then have s': "snd (invoke this x) = SecurityGroupBase_addIngressRule this p c d"
      using AddIngressRule by (auto simp: addIngressRule_def)
    obtain i r where i: "take 3 i \<noteq> ''to ''"
      and ch: "children (SecurityGroupBase_addIngressRule this p c d)
         = (if children this i = None then (children this)(i \<mapsto> CfnSecurityGroupIngress r)
            else children this)"
      using base_addIngressRule_children by blast
    have "\<forall>j. take 3 j = ''to '' \<longrightarrow> children (snd (invoke this x)) j = children this j"
      using i by (auto simp: s' ch)
    moreover have "\<forall>j r'. children this j = Some (CfnSecurityGroupEgress r') \<longrightarrow>
        children (snd (invoke this x)) j = Some (CfnSecurityGroupEgress r')"
      by (auto simp: s' ch)
    moreover have "directEgressRules (snd (invoke this x)) = directEgressRules this"
      by (simp add: s' base_addIngressRule_frame)
    ultimately show ?thesis using P Q by metis
  qed
next
  case (AddEgressRule p c d)
  show ?thesis
  proof (cases "allowAllOutbound this")
    case True
    then have "snd (invoke this x) = this"
      using AddEgressRule by (simp add: addEgressRule_allow)
    then show ?thesis using P Q by simp
  next
    case deny: False
    show ?thesis
    proof (cases "peer_canInlineRule p \<and> conn_canInlineRule c")
      case True
      with ret deny AddEgressRule have "\<not> isAllTrafficRule (egressRule p c d)"
        by (auto simp: addEgressRule_def Let_def)
      with True deny AddEgressRule
      have "snd (invoke this x)
              = addDirectEgressRule (removeNoTrafficRule this) (egressRule p c d)"
        by (simp add: addEgressRule_inline)
      then show ?thesis using P
        by (simp add: addDirectEgressRule_frame removeNoTrafficRule_frame
            addDirectEgressRule_nonempty)
    next
      case False
      then have s': "snd (invoke this x)
              = SecurityGroupBase_addEgressRule (removeNoTrafficRule this) p c d"
        using AddEgressRule deny by (simp add: addEgressRule_fallback)
      obtain i r where i: "take 3 i = ''to ''"
        and ch: "children (SecurityGroupBase_addEgressRule (removeNoTrafficRule this) p c d)
           = (if children this i = None then (children this)(i \<mapsto> CfnSecurityGroupEgress r)
              else children this)"
        using base_addEgressRule_children [of "removeNoTrafficRule this" p c d]
        unfolding removeNoTrafficRule_frame by blast
      show ?thesis
      proof (cases "children this i")
        case None
        then have "children (snd (invoke this x))
                     = (children this)(i \<mapsto> CfnSecurityGroupEgress r)"
          by (simp add: s' ch)
        then show ?thesis using P by auto
      next
        case (Some a)
        then have same: "children (snd (invoke this x)) = children this"
          by (simp add: s' ch)
        from Some P i obtain r' where "children this i = Some (CfnSecurityGroupEgress r')"
          by blast
        then show ?thesis using P same by auto
      qed
    qed
  qed
qed

lemma egress_present_run:
  assumes "\<forall>i. take 3 i = ''to '' \<longrightarrow> children this i \<noteq> None \<longrightarrow>
                (\<exists>r. children this i = Some (CfnSecurityGroupEgress r))"
    and "directEgressRules this \<noteq> []
         \<or> (\<exists>i r. children this i = Some (CfnSecurityGroupEgress r))"
    and "allReturn this cs"
  shows "directEgressRules (run this cs) \<noteq> []
        \<or> (\<exists>i r. children (run this cs) i = Some (CfnSecurityGroupEgress r))"
  using assms
proof (induction cs arbitrary: this)
  case Nil
  then show ?case by simp
next
  case (Cons x cs)
  from Cons.prems(3) have ret: "fst (invoke this x) = Inr ()"
    and rest: "allReturn (snd (invoke this x)) cs"
    by simp_all
  note step = egress_present_step [OF Cons.prems(1) Cons.prems(2) ret]
  have "directEgressRules (run (snd (invoke this x)) cs) \<noteq> []
        \<or> (\<exists>i r. children (run (snd (invoke this x)) cs) i = Some (CfnSecurityGroupEgress r))"
    using step rest by (intro Cons.IH) blast+
  then show ?case by simp
qed

subsection \<open>Inline ingress rules\<close>











section \<open>Properties\<close>

subsection \<open>Outcomes of the two methods\<close>



text \<open>
  C2. \<open>addEgressRule\<close> raises the configuration error exactly when the group is not in
  allow-all-outbound mode and the rule it builds, which it does only for a peer and a
  port range that can both be inlined, is an all-traffic rule; on every other input
  it returns normally.
\<close>

theorem addEgressRule_raises_iff:
  "(fst (addEgressRule this peer connection description) = Inl ConfigurationError)
     = (\<not> allowAllOutbound this \<and> peer_canInlineRule peer \<and> conn_canInlineRule connection
        \<and> isAllTrafficRule (egressRule peer connection description))
   \<and> (fst (addEgressRule this peer connection description) = Inr ())
     = (\<not> (\<not> allowAllOutbound this \<and> peer_canInlineRule peer \<and> conn_canInlineRule connection
        \<and> isAllTrafficRule (egressRule peer connection description)))"
  by (auto simp: addEgressRule_def Let_def)

theorem addEgressRule_raises_iff_witness:
  "fst (addEgressRule (SecurityGroup_new (Some False) ''sg-1'') anyIPv4 allConnections None)
     = Inl ConfigurationError
   \<and> fst (addEgressRule (SecurityGroup_new (Some False) ''sg-1'') groupPeer allConnections None)
     = Inr ()
   \<and> fst (addEgressRule (SecurityGroup_new (Some True) ''sg-1'') anyIPv4 allConnections None)
     = Inr ()"
proof -
  have deny: "\<not> allowAllOutbound (SecurityGroup_new (Some False) ''sg-1'')"
    by (simp add: new_deny)
  have allow: "allowAllOutbound (SecurityGroup_new (Some True) ''sg-1'')"
    by (simp add: new_allow)
  have inl: "peer_canInlineRule anyIPv4" "conn_canInlineRule allConnections"
    "\<not> peer_canInlineRule groupPeer"
    by (simp_all add: anyIPv4_def allConnections_def groupPeer_def)
  show ?thesis
    using addEgressRule_raises_iff [of "SecurityGroup_new (Some False) ''sg-1''" anyIPv4 allConnections None]
      addEgressRule_raises_iff [of "SecurityGroup_new (Some False) ''sg-1''" groupPeer allConnections None]
      addEgressRule_raises_iff [of "SecurityGroup_new (Some True) ''sg-1''" anyIPv4 allConnections None]
      deny allow inl allTraffic_any [of None]
    by simp
qed

text \<open>
  C9. Frame property: \<open>addIngressRule\<close> leaves the egress rule list as it is, and
  \<open>addEgressRule\<close> leaves the ingress rule list as it is, whether it returns or raises.
\<close>

theorem rule_lists_frame:
  "directEgressRules (snd (addIngressRule this peer connection description))
     = directEgressRules this
   \<and> directIngressRules (snd (addEgressRule this peer connection description))
     = directIngressRules this"
  by (simp add: addIngressRule_egress_frame addEgressRule_ingress_frame)

theorem rule_lists_frame_witness:
  "directEgressRules (snd (addIngressRule (SecurityGroup_new (Some False) ''sg-1'')
      anyIPv4 (tcpPort 22 ''22'') None)) = [MATCH_NO_TRAFFIC]
   \<and> directIngressRules (snd (addEgressRule (SecurityGroup_new (Some False) ''sg-1'')
      anyIPv4 allConnections None)) = []"
  using rule_lists_frame [of "SecurityGroup_new (Some False) ''sg-1''" anyIPv4
      "tcpPort 22 ''22''" None]
    rule_lists_frame [of "SecurityGroup_new (Some False) ''sg-1''" anyIPv4 allConnections None]
  by (simp add: new_deny)

subsection \<open>The all-traffic rule on a deny-by-default group\<close>

text \<open>
  C1. On a new group with \<open>allowAllOutbound = false\<close>, \<open>addEgressRule\<close> with a peer and
  a port range that can be inlined and build an all-traffic rule raises the
  configuration error, but only after \<open>removeNoTrafficRule\<close> has run: the egress list,
  which held the sentinel before the call, is empty after it. The list is not left
  as it was.
\<close>

theorem addEgressRule_raise_drops_sentinel:
  "peer_canInlineRule peer \<Longrightarrow> conn_canInlineRule connection \<Longrightarrow>
   isAllTrafficRule (egressRule peer connection description) \<Longrightarrow>
   addEgressRule (SecurityGroup_new (Some False) gid) peer connection description
     = (Inl ConfigurationError, (SecurityGroup_new (Some False) gid)\<lparr>directEgressRules := []\<rparr>)
   \<and> directEgressRules (SecurityGroup_new (Some False) gid) = [MATCH_NO_TRAFFIC]"
  by (simp add: addEgressRule_def Let_def new_deny removeNoTrafficRule_sentinel)

theorem addEgressRule_raise_drops_sentinel_witness:
  "fst (addEgressRule (SecurityGroup_new (Some False) ''sg-1'') anyIPv4 allConnections None)
     = Inl ConfigurationError
   \<and> directEgressRules
       (snd (addEgressRule (SecurityGroup_new (Some False) ''sg-1'') anyIPv4 allConnections None))
     = []
   \<and> directEgressRules (SecurityGroup_new (Some False) ''sg-1'') = [MATCH_NO_TRAFFIC]"
proof -
  have 1: "peer_canInlineRule anyIPv4" by (simp add: anyIPv4_def)
  have 2: "conn_canInlineRule allConnections" by (simp add: allConnections_def)
  have 3: "isAllTrafficRule (egressRule anyIPv4 allConnections None)"
    by (rule allTraffic_any)
  show ?thesis
    using addEgressRule_raise_drops_sentinel [OF 1 2 3, of "''sg-1''"] by simp
qed

text \<open>
  C5. After that raising call no explicit egress rule has been added to the group, and
  yet neither sentinel is in its egress list: not \<open>ALLOW_ALL_RULE\<close>, not
  \<open>MATCH_NO_TRAFFIC\<close>.
\<close>

theorem raise_leaves_no_sentinel:
  "fst (invoke (SecurityGroup_new (Some False) gid) (AddEgressRule anyIPv4 allConnections d))
     = Inl ConfigurationError
   \<and> ALLOW_ALL_RULE \<notin> set (directEgressRules
        (run (SecurityGroup_new (Some False) gid) [AddEgressRule anyIPv4 allConnections d]))
   \<and> MATCH_NO_TRAFFIC \<notin> set (directEgressRules
        (run (SecurityGroup_new (Some False) gid) [AddEgressRule anyIPv4 allConnections d]))"
proof -
  have deny: "\<not> allowAllOutbound (SecurityGroup_new (Some False) gid)"
    by (simp add: new_deny)
  have inl: "peer_canInlineRule anyIPv4" "conn_canInlineRule allConnections"
    by (simp_all add: anyIPv4_def allConnections_def)
  have "addEgressRule (SecurityGroup_new (Some False) gid) anyIPv4 allConnections d
      = (Inl ConfigurationError, removeNoTrafficRule (SecurityGroup_new (Some False) gid))"
    using deny inl allTraffic_any by (rule addEgressRule_raise)
  moreover have "directEgressRules (removeNoTrafficRule (SecurityGroup_new (Some False) gid)) = []"
    by (simp add: removeNoTrafficRule_fresh new_deny)
  ultimately show ?thesis by simp
qed

theorem raise_leaves_no_sentinel_witness:
  "directEgressRules
     (run (SecurityGroup_new (Some False) ''sg-1'') [AddEgressRule anyIPv4 allConnections None])
   = []"
proof -
  have "directEgressRules (removeNoTrafficRule (SecurityGroup_new (Some False) ''sg-1'')) = []"
    by (simp add: removeNoTrafficRule_fresh new_deny)
  moreover have "snd (addEgressRule (SecurityGroup_new (Some False) ''sg-1'') anyIPv4 allConnections None)
      = removeNoTrafficRule (SecurityGroup_new (Some False) ''sg-1'')"
    using raise_leaves_no_sentinel [of "''sg-1''" None]
    by (simp add: addEgressRule_raise_state)
  ultimately show ?thesis by simp
qed

text \<open>
  C3. A new group with \<open>allowAllOutbound = false\<close> has the egress list
  \<open>[MATCH_NO_TRAFFIC]\<close>. After the first \<open>addEgressRule\<close> call that returns normally
  (any \<open>addIngressRule\<close> calls and raising \<open>addEgressRule\<close> calls may come before it)
  the sentinel entry is gone. When peer and port range can both be inlined, the
  egress list is exactly the rule built from that call. Otherwise the egress list is
  empty and the rule is a standalone egress resource of the group: under the id
  \<open>to <uniqueId>:<connection>\<close>, its first slash replaced by an underscore, the group
  has a \<open>CfnSecurityGroupEgress\<close> child that holds the group's id, the peer's and the
  port range's fields and the description (by default the id before the replacement).
  Unless the rule built is itself equal to the sentinel as an egress rule, the list
  has no entry left that \<open>removeNoTrafficRule\<close> would take for the sentinel.
\<close>

theorem first_returning_addEgressRule:
  "directEgressRules (SecurityGroup_new (Some False) gid) = [MATCH_NO_TRAFFIC]
   \<and> (noEgressReturn (SecurityGroup_new (Some False) gid) cs
      \<and> fst (addEgressRule (run (SecurityGroup_new (Some False) gid) cs) p c d) = Inr ()
      \<longrightarrow> directEgressRules
            (snd (addEgressRule (run (SecurityGroup_new (Some False) gid) cs) p c d))
           = (if peer_canInlineRule p \<and> conn_canInlineRule c then [egressRule p c d] else [])
        \<and> (\<not> (peer_canInlineRule p \<and> conn_canInlineRule c)
            \<longrightarrow> tryFindChild
                  (snd (addEgressRule (run (SecurityGroup_new (Some False) gid) cs) p c d))
                  (str_replace (CHR ''/'') (CHR ''_'')
                     (''to '' @ uniqueId p @ '':'' @ conn_toString c))
                = Some (CfnSecurityGroupEgress
                    (([''groupId'' \<mapsto> JString gid] ++ toEgressRuleJSON p ++ toRuleJSON c)
                      (''description'' \<mapsto> JString (case d of
                          None \<Rightarrow> ''to '' @ uniqueId p @ '':'' @ conn_toString c
                        | Some d' \<Rightarrow> d')))))
        \<and> (\<not> egressRulesEqual (egressRule p c d) MATCH_NO_TRAFFIC
            \<longrightarrow> \<not> hasEgressRule
                  (snd (addEgressRule (run (SecurityGroup_new (Some False) gid) cs) p c d))
                  MATCH_NO_TRAFFIC))"
proof -
  let ?s0 = "SecurityGroup_new (Some False) gid"
  let ?s' = "snd (addEgressRule (run ?s0 cs) p c d)"
  have init: "directEgressRules ?s0 = [MATCH_NO_TRAFFIC]"
    by (simp add: new_deny)
  have deny: "\<not> allowAllOutbound ?s0"
    by (simp add: new_deny)
  have inv: "noEgressReturn ?s0 cs \<Longrightarrow> \<not> allowAllOutbound (run ?s0 cs)
     \<and> (directEgressRules (run ?s0 cs) = [MATCH_NO_TRAFFIC] \<or> directEgressRules (run ?s0 cs) = [])"
    using deny init by (intro sentinel_or_empty_run) simp_all
  then have list: "noEgressReturn ?s0 cs \<Longrightarrow> fst (addEgressRule (run ?s0 cs) p c d) = Inr () \<Longrightarrow>
      directEgressRules ?s'
        = (if peer_canInlineRule p \<and> conn_canInlineRule c then [egressRule p c d] else [])"
    by (intro addEgressRule_after_sentinel_or_empty) simp_all
  have absent: "\<not> hasEgressRule ?s' MATCH_NO_TRAFFIC"
    if "directEgressRules ?s'
        = (if peer_canInlineRule p \<and> conn_canInlineRule c then [egressRule p c d] else [])"
      and "\<not> egressRulesEqual (egressRule p c d) MATCH_NO_TRAFFIC"
    using that by (simp add: hasEgressRule_def split: if_splits)
  have free0: "\<forall>i. take 3 i = ''to '' \<longrightarrow> children ?s0 i = None"
    by (auto simp: new_children)
  have standalone: "tryFindChild ?s'
        (str_replace (CHR ''/'') (CHR ''_'') (''to '' @ uniqueId p @ '':'' @ conn_toString c))
      = Some (CfnSecurityGroupEgress
          (([''groupId'' \<mapsto> JString gid] ++ toEgressRuleJSON p ++ toRuleJSON c)
            (''description'' \<mapsto> JString (case d of
                None \<Rightarrow> ''to '' @ uniqueId p @ '':'' @ conn_toString c | Some d' \<Rightarrow> d'))))"
    if ner: "noEgressReturn ?s0 cs" and n: "\<not> (peer_canInlineRule p \<and> conn_canInlineRule c)"
  proof -
    let ?t = "removeNoTrafficRule (run ?s0 cs)"
    have "\<not> allowAllOutbound (run ?s0 cs)" using inv [OF ner] by simp
    then have s': "?s' = SecurityGroupBase_addEgressRule ?t p c d"
      using n by (simp add: addEgressRule_fallback)
    have "\<forall>i. take 3 i = ''to '' \<longrightarrow> children (run ?s0 cs) i = None"
      using free0 ner by (rule no_egress_child_run)
    then have free: "\<forall>i. take 3 i = ''to '' \<longrightarrow> children ?t i = None"
      by (simp add: removeNoTrafficRule_frame)
    have gid: "securityGroupId ?t = gid"
      by (simp add: securityGroupId_frame run_securityGroupId new_deny)
    show ?thesis
      using base_addEgressRule_new_child [OF free, of p c d] by (simp add: s' gid)
  qed
  from init list absent standalone show ?thesis by blast
qed

theorem first_returning_addEgressRule_witness:
  "directEgressRules
     (snd (addEgressRule
        (run (SecurityGroup_new (Some False) ''sg-1'')
           [AddEgressRule anyIPv4 allConnections None,
            AddIngressRule anyIPv4 (tcpPort 22 ''22'') None])
        anyIPv4 (tcpPort 80 ''80'') None))
   = [egressRule anyIPv4 (tcpPort 80 ''80'') None]
   \<and> \<not> hasEgressRule
       (snd (addEgressRule
          (run (SecurityGroup_new (Some False) ''sg-1'')
             [AddEgressRule anyIPv4 allConnections None,
              AddIngressRule anyIPv4 (tcpPort 22 ''22'') None])
          anyIPv4 (tcpPort 80 ''80'') None))
       MATCH_NO_TRAFFIC
   \<and> directEgressRules
       (snd (addEgressRule (SecurityGroup_new (Some False) ''sg-1'')
          groupPeer (tcpPort 443 ''443'') None))
     = []
   \<and> tryFindChild
       (snd (addEgressRule (SecurityGroup_new (Some False) ''sg-1'')
          groupPeer (tcpPort 443 ''443'') None))
       ''to OtherGroup:443''
     = Some (CfnSecurityGroupEgress
         (([''groupId'' \<mapsto> JString ''sg-1''] ++ toEgressRuleJSON groupPeer
             ++ toRuleJSON (tcpPort 443 ''443''))
           (''description'' \<mapsto> JString ''to OtherGroup:443'')))"
proof -
  let ?s0 = "SecurityGroup_new (Some False) ''sg-1''"
  let ?cs = "[AddEgressRule anyIPv4 allConnections None,
              AddIngressRule anyIPv4 (tcpPort 22 ''22'') None]"
  have deny: "\<not> allowAllOutbound ?s0"
    by (simp add: new_deny)
  have inl: "peer_canInlineRule anyIPv4" "conn_canInlineRule allConnections"
    "conn_canInlineRule (tcpPort 80 ''80'')"
    by (simp_all add: anyIPv4_def allConnections_def tcpPort_def)
  have "fst (addEgressRule ?s0 anyIPv4 allConnections None) = Inl ConfigurationError"
    using addEgressRule_raise [OF deny inl(1) inl(2) allTraffic_any] by simp
  then have 1: "noEgressReturn ?s0 ?cs" by simp
  have 2: "fst (addEgressRule (run ?s0 ?cs) anyIPv4 (tcpPort 80 ''80'') None) = Inr ()"
    using not_allTraffic_tcp by (rule addEgressRule_returns_unless_all_traffic)
  have 3: "\<not> egressRulesEqual (egressRule anyIPv4 (tcpPort 80 ''80'') None) MATCH_NO_TRAFFIC"
    by (simp add: egressRulesEqual_def egressRule_def anyIPv4_def tcpPort_def
        MATCH_NO_TRAFFIC_def getProp_def map_add_def)
  have a: "directEgressRules (snd (addEgressRule (run ?s0 ?cs) anyIPv4 (tcpPort 80 ''80'') None))
      = [egressRule anyIPv4 (tcpPort 80 ''80'') None]
    \<and> \<not> hasEgressRule (snd (addEgressRule (run ?s0 ?cs) anyIPv4 (tcpPort 80 ''80'') None))
        MATCH_NO_TRAFFIC"
    using first_returning_addEgressRule [of "''sg-1''" ?cs anyIPv4 "tcpPort 80 ''80''" None] 1 2 3 inl
    by simp
  have n: "\<not> peer_canInlineRule groupPeer" by (simp add: groupPeer_def)
  have 4: "noEgressReturn ?s0 []" by simp
  have 5: "fst (addEgressRule (run ?s0 []) groupPeer (tcpPort 443 ''443'') None) = Inr ()"
    using not_allTraffic_tcp by (rule addEgressRule_returns_unless_all_traffic)
  have i: "str_replace (CHR ''/'') (CHR ''_'')
       (''to '' @ uniqueId groupPeer @ '':'' @ conn_toString (tcpPort 443 ''443''))
     = ''to OtherGroup:443''"
    by (simp add: groupPeer_def tcpPort_def)
  have b: "directEgressRules (snd (addEgressRule ?s0 groupPeer (tcpPort 443 ''443'') None)) = []
    \<and> tryFindChild (snd (addEgressRule ?s0 groupPeer (tcpPort 443 ''443'') None))
        ''to OtherGroup:443''
      = Some (CfnSecurityGroupEgress
         (([''groupId'' \<mapsto> JString ''sg-1''] ++ toEgressRuleJSON groupPeer
             ++ toRuleJSON (tcpPort 443 ''443''))
           (''description'' \<mapsto> JString ''to OtherGroup:443'')))"
    using first_returning_addEgressRule [of "''sg-1''" "[]" groupPeer "tcpPort 443 ''443''" None] 4 5 n
    unfolding i by (simp add: groupPeer_def tcpPort_def)
  from a b show ?thesis by simp
qed

theorem first_returning_addEgressRule_counterexample:
  "\<not> (fst (addEgressRule (SecurityGroup_new (Some False) ''sg-1'')
             groupPeer (tcpPort 443 ''443'') None) = Inr ()
      \<longrightarrow> MATCH_NO_TRAFFIC \<notin> set (directEgressRules
             (snd (addEgressRule (SecurityGroup_new (Some False) ''sg-1'')
                groupPeer (tcpPort 443 ''443'') None)))
        \<and> egressRule groupPeer (tcpPort 443 ''443'') None \<in> set (directEgressRules
             (snd (addEgressRule (SecurityGroup_new (Some False) ''sg-1'')
                groupPeer (tcpPort 443 ''443'') None))))"
proof -
  have "\<not> peer_canInlineRule groupPeer \<or> \<not> conn_canInlineRule (tcpPort 443 ''443'')"
    by (simp add: groupPeer_def)
  then show ?thesis
    by (simp add: fallback_on_new_deny)
qed

subsection \<open>Allow-all-outbound groups\<close>

text \<open>
  C4. A group constructed with \<open>allowAllOutbound\<close> true (or left at its default) keeps
  the egress list \<open>[ALLOW_ALL_RULE]\<close>, of length one, through every finite sequence of
  \<open>addEgressRule\<close> calls, and each such call returns with the group unchanged.
\<close>

theorem allow_all_egress_fixed:
  assumes "a \<noteq> Some False" and "\<forall>x\<in>set cs. isEgressCall x"
  shows "directEgressRules (run (SecurityGroup_new a gid) cs) = [ALLOW_ALL_RULE]
    \<and> length (directEgressRules (run (SecurityGroup_new a gid) cs)) = 1
    \<and> addEgressRule (run (SecurityGroup_new a gid) cs) peer connection description
        = (Inr (), run (SecurityGroup_new a gid) cs)"
proof -
  have allow: "allowAllOutbound (SecurityGroup_new a gid)"
    using assms(1) by (simp add: new_allow)
  have "run (SecurityGroup_new a gid) cs = SecurityGroup_new a gid"
    using allow assms(2) by (rule run_allow_egress)
  then show ?thesis using allow assms(1) by (simp add: addEgressRule_allow new_allow)
qed

theorem allow_all_egress_fixed_witness:
  "directEgressRules
     (run (SecurityGroup_new (Some True) ''sg-1'')
        [AddEgressRule groupPeer (tcpPort 443 ''443'') None,
         AddEgressRule anyIPv4 allConnections (Some ''everything'')])
   = [ALLOW_ALL_RULE]
   \<and> addEgressRule
       (run (SecurityGroup_new (Some True) ''sg-1'')
          [AddEgressRule groupPeer (tcpPort 443 ''443'') None,
           AddEgressRule anyIPv4 allConnections (Some ''everything'')])
       anyIPv4 (tcpPort 80 ''80'') None
     = (Inr (), run (SecurityGroup_new (Some True) ''sg-1'')
          [AddEgressRule groupPeer (tcpPort 443 ''443'') None,
           AddEgressRule anyIPv4 allConnections (Some ''everything'')])"
proof -
  have 1: "Some True \<noteq> Some False" by simp
  have 2: "\<forall>x\<in>set [AddEgressRule groupPeer (tcpPort 443 ''443'') None,
         AddEgressRule anyIPv4 allConnections (Some ''everything'')]. isEgressCall x"
    by simp
  show ?thesis
    using allow_all_egress_fixed [OF 1 2, of "''sg-1''" anyIPv4 "tcpPort 80 ''80''" None]
    by blast
qed

subsection \<open>At least one egress rule\<close>

text \<open>
  C6. In every state reached from construction by \<open>addIngressRule\<close> and
  \<open>addEgressRule\<close> calls that all returned normally, the group has an egress rule:
  its inline egress list is not empty, or one of its children is a standalone egress
  rule resource. The inline list alone can be empty, namely when the rules of a
  deny-by-default group all went the standalone way.
\<close>

theorem egress_rule_present:
  assumes "allReturn (SecurityGroup_new a gid) cs"
  shows "directEgressRules (run (SecurityGroup_new a gid) cs) \<noteq> []
        \<or> (\<exists>i r. children (run (SecurityGroup_new a gid) cs) i = Some (CfnSecurityGroupEgress r))"
proof (rule egress_present_run [OF _ _ assms])
  show "\<forall>i. take 3 i = ''to '' \<longrightarrow> children (SecurityGroup_new a gid) i \<noteq> None \<longrightarrow>
                (\<exists>r. children (SecurityGroup_new a gid) i = Some (CfnSecurityGroupEgress r))"
    by (auto simp: new_children)
  show "directEgressRules (SecurityGroup_new a gid) \<noteq> []
     \<or> (\<exists>i r. children (SecurityGroup_new a gid) i = Some (CfnSecurityGroupEgress r))"
    by (simp add: new_egress_nonempty)
qed

theorem egress_rule_present_witness:
  "allReturn (SecurityGroup_new (Some False) ''sg-1'')
      [AddEgressRule groupPeer (tcpPort 443 ''443'') None]
   \<and> (\<exists>i r. children
        (run (SecurityGroup_new (Some False) ''sg-1'')
           [AddEgressRule groupPeer (tcpPort 443 ''443'') None]) i
        = Some (CfnSecurityGroupEgress r))"
proof -
  have n: "\<not> peer_canInlineRule groupPeer \<or> \<not> conn_canInlineRule (tcpPort 443 ''443'')"
    by (simp add: groupPeer_def)
  have 1: "allReturn (SecurityGroup_new (Some False) ''sg-1'')
      [AddEgressRule groupPeer (tcpPort 443 ''443'') None]"
    using fallback_on_new_deny [OF n] by simp
  have 2: "directEgressRules (run (SecurityGroup_new (Some False) ''sg-1'')
      [AddEgressRule groupPeer (tcpPort 443 ''443'') None]) = []"
    using fallback_on_new_deny [OF n] by simp
  show ?thesis
    using egress_rule_present [OF 1] 1 2 by simp
qed

theorem egress_rule_present_counterexample:
  "directEgressRules
     (run (SecurityGroup_new (Some False) ''sg-1'')
        [AddEgressRule groupPeer (tcpPort 443 ''443'') None])
   = []"
proof -
  have "\<not> peer_canInlineRule groupPeer \<or> \<not> conn_canInlineRule (tcpPort 443 ''443'')"
    by (simp add: groupPeer_def)
  then show ?thesis
    by (simp add: fallback_on_new_deny)
qed

subsection \<open>Adding an ingress rule twice\<close>




subsection \<open>Import and export\<close>

text \<open>
  C10. Exporting an imported security group, or an imported topic, gives back the
  properties it was imported from.
\<close>

theorem import_export_roundtrip:
  "ImportedSecurityGroup_export (SecurityGroup_import parent ident p) = p
   \<and> ImportedTopic_export (Topic_import parent' ident' q) = q"
  by (simp add: ImportedSecurityGroup_export_def SecurityGroup_import_def
      ImportedTopic_export_def Topic_import_def)

theorem import_export_roundtrip_witness:
  "ImportedSecurityGroup_export
     (SecurityGroup_import () ''Imported'' \<lparr> props_securityGroupId = ''sg-12345'' \<rparr>)
   = \<lparr> props_securityGroupId = ''sg-12345'' \<rparr>
   \<and> ImportedTopic_export
       (Topic_import () ''Topic''
          \<lparr> props_topicArn = ''arn:aws:sns:us-east-1:123456789012:t'', props_topicName = ''t'' \<rparr>)
     = \<lparr> props_topicArn = ''arn:aws:sns:us-east-1:123456789012:t'', props_topicName = ''t'' \<rparr>"
  by (rule import_export_roundtrip)

end
